theory Spec2Isabelle
  imports Main "HOL-Library.Word"
begin

section \<open>C integers\<close>

text \<open>
  The counters of \<^verbatim>\<open>graph.c\<close> are C \<^verbatim>\<open>int\<close>s. An \<^verbatim>\<open>int\<close> is taken to be 32 bits wide,
  two's complement, as on the Windows and POSIX platforms \<^verbatim>\<open>config.h\<close> selects between.
  A value is read with \<open>sint\<close>; a comparison of the source is a comparison of the
  \<open>sint\<close> readings.
\<close>

type_synonym cint = "32 word"

definition INT_MAX :: int where
  "INT_MAX = 2147483647"

definition INT_MIN :: int where
  "INT_MIN = - 2147483648"

text \<open>
  Signed overflow is undefined behaviour in C: the program has no defined result from
  there on. The model makes that an outcome of its own, the only one besides a normal
  return, so that a call which would overflow is a branch of the model and never a
  wrapped value.
\<close>

datatype error = Signed_Overflow

text \<open>
  Modelled from the spec: \<^verbatim>\<open>util/math.h\<close>, which defines \<^verbatim>\<open>add\<close>, is not among the sources.
  The spec has \<^verbatim>\<open>graph_add_node\<close> "increment" a counter "by 1" where the code calls
  \<^verbatim>\<open>add(counter, 1)\<close>, and calls integer overflow of the counters "undefined behavior":
  \<^verbatim>\<open>add\<close> is the addition of two \<^verbatim>\<open>int\<close>s, undefined where the sum is not an \<^verbatim>\<open>int\<close>.
\<close>

definition add :: "cint \<Rightarrow> cint \<Rightarrow> error + cint" where
  "add a b =
     (if INT_MIN \<le> sint a + sint b \<and> sint a + sint b \<le> INT_MAX
      then Inr (a + b) else Inl Signed_Overflow)"

section \<open>The counter of graph.c\<close>

text \<open>
  \<^verbatim>\<open>
  static int nodes = 0;
  static int edges = 0;
  \<close>
  The two file-scope variables are the state; \<open>static_init\<close> is the state the C
  initialisers give them before \<^verbatim>\<open>main\<close> runs.
\<close>

record graph_state =
  nodes :: cint
  edges :: cint

definition static_init :: graph_state where
  "static_init = \<lparr>nodes = 0, edges = 0\<rparr>"

text \<open>
  \<^verbatim>\<open>
  void graph_init(void){
      nodes = 0;
      edges = 0;
  }
  \<close>
\<close>

definition graph_init :: "graph_state \<Rightarrow> graph_state" where
  "graph_init s = (let s1 = s\<lparr>nodes := 0\<rparr>; s2 = s1\<lparr>edges := 0\<rparr> in s2)"

text \<open>
  \<^verbatim>\<open>
  int graph_add_node(int id){
      (void)id;
      nodes = add(nodes, 1);
      if (nodes > 1) edges = add(edges, 1);
      return nodes;
  }
  \<close>
  The result is the returned value and the state after the call.
\<close>

definition graph_add_node :: "cint \<Rightarrow> graph_state \<Rightarrow> error + (cint \<times> graph_state)" where
  "graph_add_node node_id s =
     (case add (nodes s) 1 of
        Inl e \<Rightarrow> Inl e
      | Inr n \<Rightarrow>
          let s1 = s\<lparr>nodes := n\<rparr> in
          if 1 < sint (nodes s1) then
            (case add (edges s1) 1 of
               Inl e \<Rightarrow> Inl e
             | Inr m \<Rightarrow> let s2 = s1\<lparr>edges := m\<rparr> in Inr (nodes s2, s2))
          else Inr (nodes s1, s1))"

text \<open>
  \<^verbatim>\<open>
  int graph_edge_count(void){
      return edges;
  }
  \<close>
\<close>

definition graph_edge_count :: "graph_state \<Rightarrow> cint \<times> graph_state" where
  "graph_edge_count s = (edges s, s)"

section \<open>Callers\<close>

text \<open>
  A caller of the three functions makes a sequence of calls. \<open>exec\<close> makes one call and
  gives what it returned (\<open>None\<close> for the \<^verbatim>\<open>void\<close> function); \<open>run\<close> makes the calls of
  a list in order, collects the returned values and stops at undefined behaviour.
\<close>

datatype call = Init | Add_node cint | Edge_count

fun exec :: "call \<Rightarrow> graph_state \<Rightarrow> error + (cint option \<times> graph_state)" where
  "exec Init s = Inr (None, graph_init s)"
| "exec (Add_node node_id) s =
     (case graph_add_node node_id s of
        Inl e \<Rightarrow> Inl e
      | Inr (r, s') \<Rightarrow> Inr (Some r, s'))"
| "exec Edge_count s = (case graph_edge_count s of (r, s') \<Rightarrow> Inr (Some r, s'))"

fun run :: "call list \<Rightarrow> graph_state \<Rightarrow> error + (cint option list \<times> graph_state)" where
  "run [] s = Inr ([], s)"
| "run (c # cs) s =
     (case exec c s of
        Inl e \<Rightarrow> Inl e
      | Inr (r, s') \<Rightarrow>
          (case run cs s' of
             Inl e \<Rightarrow> Inl e
           | Inr (rs, s'') \<Rightarrow> Inr (r # rs, s'')))"

section \<open>The program of main.c\<close>

text \<open>
  The conversion \<^verbatim>\<open>%d\<close> of \<^verbatim>\<open>printf\<close>: a signed decimal numeral. \<open>digit\<close> is only
  applied below 10.
\<close>

definition digit :: "nat \<Rightarrow> char" where
  "digit d = ''0123456789'' ! d"

function dec_nat :: "nat \<Rightarrow> string" where
  "dec_nat n = (if n < 10 then [digit n] else dec_nat (n div 10) @ [digit (n mod 10)])"
  by pat_completeness auto
termination
  by (relation "measure (\<lambda>n. n)") auto

declare dec_nat.simps [simp del]

definition dec_int :: "int \<Rightarrow> string" where
  "dec_int i = (if i < 0 then CHR ''-'' # dec_nat (nat (- i)) else dec_nat (nat i))"

text \<open>
  Modelled from the spec: \<^verbatim>\<open>plugins/plugin.h\<close>, which declares \<^verbatim>\<open>plugin_answer\<close>, is not
  among the sources. The spec calls it "a plugin stub", "static scaffolding with no
  algorithmic content"; the counters are \<^verbatim>\<open>static\<close> in \<^verbatim>\<open>graph.c\<close>, and the stub leaves
  them as they are. \<^verbatim>\<open>main\<close> discards what it returns.
\<close>

definition plugin_answer :: "graph_state \<Rightarrow> graph_state" where
  "plugin_answer s = s"

text \<open>
  \<^verbatim>\<open>
  int main(void){
      graph_init();
      graph_add_node(1);
      graph_add_node(2);
      plugin_answer();
      printf("Orchard %s on %s: edges=%d\n",
             orchard_version(), current_platform(), graph_edge_count());
      return 0;
  }
  \<close>
  \<^verbatim>\<open>orchard_version\<close> returns the macro \<^verbatim>\<open>ORCHARD_VERSION\<close> of a generated header and
  \<^verbatim>\<open>current_platform\<close> is external: both strings are parameters. The result is the
  text printed, the exit status and the final state of the counters.
\<close>

definition main :: "string \<Rightarrow> string \<Rightarrow> graph_state \<Rightarrow> error + ((string \<times> cint) \<times> graph_state)" where
  "main orchard_version current_platform s =
     (let s1 = graph_init s in
      case graph_add_node 1 s1 of
        Inl e \<Rightarrow> Inl e
      | Inr (_, s2) \<Rightarrow>
          (case graph_add_node 2 s2 of
             Inl e \<Rightarrow> Inl e
           | Inr (_, s3) \<Rightarrow>
               let s4 = plugin_answer s3;
                   (n, s5) = graph_edge_count s4;
                   out = ''Orchard '' @ orchard_version @ '' on '' @ current_platform
                         @ '': edges='' @ dec_int (sint n) @ [CHR 0x0A]
               in Inr ((out, 0), s5)))"

section \<open>The invariant of the specification\<close>

text \<open>The spec's invariant: \<^verbatim>\<open>edgeCount == max(nodeCount - 1, 0)\<close>, on the values read.\<close>

definition graph_inv :: "graph_state \<Rightarrow> bool" where
  "graph_inv s \<longleftrightarrow> sint (edges s) = max (sint (nodes s) - 1) 0"

text \<open>
  When an increment of \<^verbatim>\<open>graph_add_node\<close> leaves the range of \<^verbatim>\<open>int\<close>: the one of
  \<^verbatim>\<open>nodes\<close> at \<open>INT_MAX\<close>, or, where the test \<^verbatim>\<open>nodes > 1\<close> is passed, the one of
  \<^verbatim>\<open>edges\<close> at \<open>INT_MAX\<close>.
\<close>

definition increment_overflows :: "graph_state \<Rightarrow> bool" where
  "increment_overflows s \<longleftrightarrow>
     sint (nodes s) = INT_MAX \<or> (0 < sint (nodes s) \<and> sint (edges s) = INT_MAX)"

section \<open>Increments\<close>

lemma sint_bounds: "INT_MIN \<le> sint (a :: cint)" "sint (a :: cint) \<le> INT_MAX"
  using sint_ge [of a] sint_lt [of a] by (simp_all add: INT_MIN_def INT_MAX_def)

lemma sint_succ:
  assumes "sint (a :: cint) < INT_MAX"
  shows "sint (a + 1) = sint a + 1"
proof -
  have "INT_MIN \<le> sint a" by (rule sint_bounds)
  with assms have "- (2 ^ 31) \<le> sint a + 1" "sint a + 1 < 2 ^ 31"
    by (simp_all add: INT_MIN_def INT_MAX_def)
  then have "signed_take_bit 31 (sint a + 1) = sint a + 1"
    by (simp add: signed_take_bit_int_eq_self)
  then show ?thesis
    by (simp add: sint_word_ariths)
qed

lemma add_one:
  "add a 1 = (if sint a < INT_MAX then Inr (a + 1) else Inl Signed_Overflow)"
  using sint_bounds [of a] by (auto simp: add_def INT_MIN_def INT_MAX_def)

lemma graph_add_node_overflow:
  assumes "increment_overflows s"
  shows "graph_add_node i s = Inl Signed_Overflow"
proof (cases "sint (nodes s) < INT_MAX")
  case True
  with assms have "0 < sint (nodes s)" "\<not> sint (edges s) < INT_MAX"
    by (auto simp: increment_overflows_def)
  with True show ?thesis
    by (simp add: graph_add_node_def add_one sint_succ)
next
  case False
  then show ?thesis
    by (simp add: graph_add_node_def add_one)
qed

lemma graph_add_node_return:
  assumes "\<not> increment_overflows s"
  shows "graph_add_node i s =
           Inr (nodes s + 1,
                \<lparr>nodes = nodes s + 1,
                 edges = (if 0 < sint (nodes s) then edges s + 1 else edges s)\<rparr>)"
proof -
  from assms sint_bounds(2) [of "nodes s"] have n: "sint (nodes s) < INT_MAX"
    by (simp add: increment_overflows_def)
  show ?thesis
  proof (cases "0 < sint (nodes s)")
    case True
    with assms sint_bounds(2) [of "edges s"] have "sint (edges s) < INT_MAX"
      by (simp add: increment_overflows_def)
    with True n show ?thesis
      by (simp add: graph_add_node_def add_one sint_succ)
  next
    case False
    with n show ?thesis
      by (simp add: graph_add_node_def add_one sint_succ)
  qed
qed

text \<open>What a call that returned has done, on the values read.\<close>

lemma graph_add_node_Inr:
  assumes "graph_add_node i s = Inr (r, s')"
  shows "\<not> increment_overflows s"
    and "r = nodes s'"
    and "sint (nodes s') = sint (nodes s) + 1"
    and "sint (edges s') = (if 0 < sint (nodes s) then sint (edges s) + 1 else sint (edges s))"
proof -
  show ok: "\<not> increment_overflows s"
    using assms graph_add_node_overflow [of s i] by auto
  from ok sint_bounds(2) [of "nodes s"] have n: "sint (nodes s) < INT_MAX"
    by (simp add: increment_overflows_def)
  from ok sint_bounds(2) [of "edges s"]
  have e: "0 < sint (nodes s) \<Longrightarrow> sint (edges s) < INT_MAX"
    by (simp add: increment_overflows_def)
  from assms graph_add_node_return [OF ok, of i]
  have "Inr (r, s') =
          (Inr (nodes s + 1,
                \<lparr>nodes = nodes s + 1,
                 edges = (if 0 < sint (nodes s) then edges s + 1 else edges s)\<rparr>)
           :: error + (cint \<times> graph_state))"
    by (rule subst)
  then have r: "r = nodes s + 1"
    and s': "s' = \<lparr>nodes = nodes s + 1,
                   edges = (if 0 < sint (nodes s) then edges s + 1 else edges s)\<rparr>"
    by blast+
  from r s' show "r = nodes s'" by simp
  from s' n show "sint (nodes s') = sint (nodes s) + 1"
    by (simp add: sint_succ)
  from s' e show
    "sint (edges s') = (if 0 < sint (nodes s) then sint (edges s) + 1 else sint (edges s))"
    by (simp add: sint_succ)
qed

lemma graph_init_zero: "graph_init s = \<lparr>nodes = 0, edges = 0\<rparr>"
  by (simp add: graph_init_def)

section \<open>Runs\<close>

lemma run_append:
  "run (cs @ ds) s =
     (case run cs s of
        Inl e \<Rightarrow> Inl e
      | Inr (rs, s') \<Rightarrow>
          (case run ds s' of
             Inl e \<Rightarrow> Inl e
           | Inr (qs, s'') \<Rightarrow> Inr (rs @ qs, s'')))"
  by (induction cs arbitrary: s) (auto split: sum.splits)

lemma run_Cons_Inr:
  assumes "run (c # cs) s = Inr (rs, t)"
  obtains r s' rs' where "exec c s = Inr (r, s')" and "run cs s' = Inr (rs', t)"
    and "rs = r # rs'"
  using assms by (auto split: sum.splits)

lemma exec_Add_node_id: "exec (Add_node i) s = exec (Add_node j) s"
  by (simp add: graph_add_node_def)

lemma graph_inv_exec:
  assumes "graph_inv s" and "exec c s = Inr (r, s')"
  shows "graph_inv s'"
proof (cases c)
  case Init
  with assms(2) show ?thesis
    by (auto simp: graph_init_zero graph_inv_def)
next
  case (Add_node i)
  with assms(2) obtain q where "graph_add_node i s = Inr (q, s')"
    by (auto split: sum.splits)
  from graph_add_node_Inr(3,4) [OF this] assms(1) show ?thesis
    by (auto simp: graph_inv_def)
next
  case Edge_count
  with assms show ?thesis
    by (simp add: graph_edge_count_def)
qed

lemma graph_inv_run:
  "graph_inv s \<Longrightarrow> run cs s = Inr (rs, t) \<Longrightarrow> graph_inv t"
proof (induction cs arbitrary: s rs)
  case Nil
  then show ?case by simp
next
  case (Cons c cs)
  from Cons.prems(2) obtain r s' rs' where
    "exec c s = Inr (r, s')" and "run cs s' = Inr (rs', t)"
    by (rule run_Cons_Inr)
  with Cons.IH Cons.prems(1) show ?case
    by (blast intro: graph_inv_exec)
qed

lemma graph_add_node_Inl_iff: "graph_add_node i s = Inl e \<longleftrightarrow> increment_overflows s"
proof
  assume "graph_add_node i s = Inl e"
  then show "increment_overflows s"
    using graph_add_node_return [of s i] by auto
next
  assume "increment_overflows s"
  then have "graph_add_node i s = Inl Signed_Overflow"
    by (rule graph_add_node_overflow)
  then show "graph_add_node i s = Inl e"
    by (cases e) simp
qed

lemma run_Add_node_ids:
  "length ids = length ids' \<Longrightarrow> run (map Add_node ids) s = run (map Add_node ids') s"
proof (induction ids ids' arbitrary: s rule: list_induct2)
  case Nil
  show ?case by simp
next
  case (Cons i ids j ids')
  have "exec (Add_node i) s = exec (Add_node j) s"
    by (rule exec_Add_node_id)
  with Cons.IH show ?case
    by (simp split: sum.splits)
qed

lemma exec_monotone:
  assumes "c \<noteq> Init" and "exec c s = Inr (r, s')"
  shows "sint (nodes s) \<le> sint (nodes s') \<and> sint (edges s) \<le> sint (edges s')"
proof (cases c)
  case Init
  with assms(1) show ?thesis by simp
next
  case (Add_node i)
  with assms(2) obtain q where "graph_add_node i s = Inr (q, s')"
    by (auto split: sum.splits)
  from graph_add_node_Inr(3,4) [OF this] show ?thesis
    by simp
next
  case Edge_count
  with assms(2) show ?thesis
    by (simp add: graph_edge_count_def)
qed

lemma run_Edge_counts:
  "run (replicate k Edge_count) s = Inr (replicate k (Some (edges s)), s)"
  by (induction k) (simp_all add: graph_edge_count_def)

section \<open>The status line\<close>

lemma dec_nat_digit: "n < 10 \<Longrightarrow> dec_nat n = [digit n]"
  by (simp add: dec_nat.simps)

lemma dec_int_one: "dec_int 1 = ''1''"
  by (simp add: dec_int_def dec_nat_digit digit_def)

section \<open>The claims\<close>

text \<open>
  C1. After a reset and any sequence of calls that stays clear of overflow, the state
  satisfies \<^verbatim>\<open>edgeCount == max(nodeCount - 1, 0)\<close>. The predicate holds after
  \<^verbatim>\<open>graph_init\<close> and is kept by \<^verbatim>\<open>graph_add_node\<close> and by \<^verbatim>\<open>graph_edge_count\<close>, so it holds
  in every state a caller can reach from a reset: as the theorem is about every
  sequence, it is about every prefix of one, that is, about the state after every call.
\<close>

theorem graph_inv_reachable:
  "graph_inv (graph_init s0)
   \<and> (graph_inv s \<and> graph_add_node i s = Inr (r, s') \<longrightarrow> graph_inv s')
   \<and> (graph_inv s \<longrightarrow> graph_inv (snd (graph_edge_count s)))
   \<and> (run cs (graph_init s0) = Inr (rs, t) \<longrightarrow> graph_inv t)"
proof (intro conjI impI)
  show init: "graph_inv (graph_init s0)"
    by (simp add: graph_init_zero graph_inv_def)
  show "graph_inv s'" if "graph_inv s \<and> graph_add_node i s = Inr (r, s')"
  proof -
    from that have "exec (Add_node i) s = Inr (Some r, s')" by simp
    with that show ?thesis by (blast intro: graph_inv_exec)
  qed
  show "graph_inv (snd (graph_edge_count s))" if "graph_inv s"
    using that by (simp add: graph_edge_count_def)
  show "graph_inv t" if "run cs (graph_init s0) = Inr (rs, t)"
    using init that by (rule graph_inv_run)
qed

theorem graph_inv_reachable_witness:
  "graph_inv \<lparr>nodes = 2, edges = 1\<rparr>
   \<and> graph_add_node 7 \<lparr>nodes = 2, edges = 1\<rparr> = Inr (3, \<lparr>nodes = 3, edges = 2\<rparr>)
   \<and> graph_inv \<lparr>nodes = 3, edges = 2\<rparr>
   \<and> run [Add_node 7, Add_node 7, Edge_count, Add_node (- 4)]
          (graph_init \<lparr>nodes = 5, edges = 9\<rparr>)
       = Inr ([Some 1, Some 2, Some 1, Some 3], \<lparr>nodes = 3, edges = 2\<rparr>)"
proof -
  have a: "graph_add_node 7 \<lparr>nodes = 2, edges = 1\<rparr> = Inr (3, \<lparr>nodes = 3, edges = 2\<rparr>)"
    by code_simp
  have b: "run [Add_node 7, Add_node 7, Edge_count, Add_node (- 4)]
               (graph_init \<lparr>nodes = 5, edges = 9\<rparr>)
             = Inr ([Some 1, Some 2, Some 1, Some 3], \<lparr>nodes = 3, edges = 2\<rparr>)"
    by code_simp
  have c: "graph_inv \<lparr>nodes = 2, edges = 1\<rparr>"
    by (simp add: graph_inv_def)
  from a b c
    graph_inv_reachable [of "\<lparr>nodes = 5, edges = 9\<rparr>" "\<lparr>nodes = 2, edges = 1\<rparr>" 7 3
      "\<lparr>nodes = 3, edges = 2\<rparr>" "[Add_node 7, Add_node 7, Edge_count, Add_node (- 4)]"
      "[Some 1, Some 2, Some 1, Some 3]" "\<lparr>nodes = 3, edges = 2\<rparr>"]
  show ?thesis by blast
qed

text \<open>
  C2. In a state \<open>(n, e)\<close> where no increment overflows, \<^verbatim>\<open>graph_add_node\<close> returns, whatever
  the id, and leaves the state \<open>(n + 1, e')\<close> with \<open>e' = e + 1\<close> if \<open>n + 1 > 1\<close> and
  \<open>e' = e\<close> otherwise. The first node after a reset adds no edge.
\<close>

theorem graph_add_node_step:
  "(\<not> increment_overflows s \<longrightarrow>
      (\<exists>r s'. graph_add_node i s = Inr (r, s')
         \<and> sint (nodes s') = sint (nodes s) + 1
         \<and> sint (edges s') =
             (if 1 < sint (nodes s) + 1 then sint (edges s) + 1 else sint (edges s))))
   \<and> graph_add_node i (graph_init s0) = Inr (1, \<lparr>nodes = 1, edges = 0\<rparr>)"
proof (intro conjI impI)
  assume ok: "\<not> increment_overflows s"
  define r where "r = nodes s + 1"
  define s' where
    "s' = \<lparr>nodes = nodes s + 1, edges = (if 0 < sint (nodes s) then edges s + 1 else edges s)\<rparr>"
  have ret: "graph_add_node i s = Inr (r, s')"
    unfolding r_def s'_def using ok by (rule graph_add_node_return)
  from graph_add_node_Inr(3,4) [OF ret] ret
  show "\<exists>r s'. graph_add_node i s = Inr (r, s')
         \<and> sint (nodes s') = sint (nodes s) + 1
         \<and> sint (edges s') =
             (if 1 < sint (nodes s) + 1 then sint (edges s) + 1 else sint (edges s))"
    by auto
next
  have "\<not> increment_overflows (graph_init s0)"
    by (simp add: graph_init_zero increment_overflows_def INT_MAX_def)
  from graph_add_node_return [OF this, of i]
  show "graph_add_node i (graph_init s0) = Inr (1, \<lparr>nodes = 1, edges = 0\<rparr>)"
    by (simp add: graph_init_zero)
qed

theorem graph_add_node_step_witness:
  "\<not> increment_overflows \<lparr>nodes = 4, edges = 3\<rparr>
   \<and> (\<exists>r s'. graph_add_node 5 \<lparr>nodes = 4, edges = 3\<rparr> = Inr (r, s')
         \<and> sint (nodes s') = 5 \<and> sint (edges s') = 4)"
proof -
  have h: "\<not> increment_overflows \<lparr>nodes = 4, edges = 3\<rparr>"
    by (simp add: increment_overflows_def INT_MAX_def)
  from graph_add_node_step [of "\<lparr>nodes = 4, edges = 3\<rparr>" 5] h show ?thesis
    by simp
qed

text \<open>
  C3. In a state with \<^verbatim>\<open>nodes == N\<close> where no increment overflows, \<^verbatim>\<open>graph_add_node\<close>
  returns \<open>N + 1\<close>, the value of \<^verbatim>\<open>nodes\<close> after the call, whatever the id. The claim's
  \<open>N \<ge> 0\<close> is not needed.
\<close>

theorem graph_add_node_returns_count:
  "\<not> increment_overflows s \<Longrightarrow>
     \<exists>r s'. graph_add_node i s = Inr (r, s') \<and> r = nodes s' \<and> sint r = sint (nodes s) + 1"
proof -
  assume ok: "\<not> increment_overflows s"
  from graph_add_node_return [OF ok, of i] obtain r s'
    where ret: "graph_add_node i s = Inr (r, s')" by blast
  from graph_add_node_Inr(2,3) [OF ret] ret show ?thesis
    by auto
qed

theorem graph_add_node_returns_count_witness:
  "0 \<le> sint (nodes \<lparr>nodes = 6, edges = 5\<rparr>)
   \<and> \<not> increment_overflows \<lparr>nodes = 6, edges = 5\<rparr>
   \<and> (\<exists>r s'. graph_add_node (- 1) \<lparr>nodes = 6, edges = 5\<rparr> = Inr (r, s')
         \<and> r = nodes s' \<and> sint r = 7)"
proof -
  have h: "\<not> increment_overflows \<lparr>nodes = 6, edges = 5\<rparr>"
    by (simp add: increment_overflows_def INT_MAX_def)
  from graph_add_node_returns_count [OF h, of "- 1"] h show ?thesis
    by simp
qed

text \<open>
  C4. \<^verbatim>\<open>graph_init\<close> is idempotent and absorbing: from every state, once or any number
  of times in a row, it gives the state with both counters 0; after a sequence of
  \<^verbatim>\<open>graph_add_node\<close> calls it gives the state it gives before them.
\<close>

theorem graph_init_absorbing:
  "graph_init s = \<lparr>nodes = 0, edges = 0\<rparr>
   \<and> graph_init (graph_init s) = graph_init s
   \<and> (graph_init ^^ Suc k) s = \<lparr>nodes = 0, edges = 0\<rparr>
   \<and> (run (map Add_node ids) s0 = Inr (rs, s') \<longrightarrow> graph_init s' = graph_init s0)"
  by (simp add: graph_init_zero)

theorem graph_init_absorbing_witness:
  "run (map Add_node [3, 3, - 8]) \<lparr>nodes = 0, edges = 0\<rparr>
     = Inr ([Some 1, Some 2, Some 3], \<lparr>nodes = 3, edges = 2\<rparr>)
   \<and> graph_init \<lparr>nodes = 3, edges = 2\<rparr> = graph_init \<lparr>nodes = 0, edges = 0\<rparr>
   \<and> (graph_init ^^ Suc 2) \<lparr>nodes = 3, edges = 2\<rparr> = \<lparr>nodes = 0, edges = 0\<rparr>"
proof -
  have h: "run (map Add_node [3, 3, - 8]) \<lparr>nodes = 0, edges = 0\<rparr>
     = Inr ([Some 1, Some 2, Some 3], \<lparr>nodes = 3, edges = 2\<rparr>)"
    by code_simp
  from h graph_init_absorbing [of "\<lparr>nodes = 3, edges = 2\<rparr>" 2 "[3, 3, - 8]"
      "\<lparr>nodes = 0, edges = 0\<rparr>" "[Some 1, Some 2, Some 3]" "\<lparr>nodes = 3, edges = 2\<rparr>"]
  show ?thesis by blast
qed

text \<open>
  C5. Id noninterference: two sequences of \<^verbatim>\<open>graph_add_node\<close> calls of the same length,
  with any ids, followed by \<^verbatim>\<open>graph_edge_count\<close>, give the same outcome from the same
  state: the same returned values, the same edge count and the same final state, or
  undefined behaviour in both.
\<close>

theorem id_noninterference:
  "length ids = length ids' \<Longrightarrow>
     run (map Add_node ids @ [Edge_count]) s = run (map Add_node ids' @ [Edge_count]) s"
  by (simp only: run_append run_Add_node_ids [of ids ids' s])

theorem id_noninterference_witness:
  "length [1, 2, 2, 99 :: cint] = length [- 5, - 5, 0, 0 :: cint]
   \<and> run (map Add_node [1, 2, 2, 99] @ [Edge_count]) static_init
       = Inr ([Some 1, Some 2, Some 3, Some 4, Some 3], \<lparr>nodes = 4, edges = 3\<rparr>)
   \<and> run (map Add_node [- 5, - 5, 0, 0] @ [Edge_count]) static_init
       = Inr ([Some 1, Some 2, Some 3, Some 4, Some 3], \<lparr>nodes = 4, edges = 3\<rparr>)"
proof -
  have h: "length [1, 2, 2, 99 :: cint] = length [- 5, - 5, 0, 0 :: cint]"
    by simp
  have v: "run (map Add_node [1, 2, 2, 99] @ [Edge_count]) static_init
       = Inr ([Some 1, Some 2, Some 3, Some 4, Some 3], \<lparr>nodes = 4, edges = 3\<rparr>)"
    by code_simp
  from id_noninterference [OF h, of static_init] h v show ?thesis
    by (simp only: simp_thms)
qed

text \<open>
  C6. Monotonicity: over a sequence of calls with no \<^verbatim>\<open>graph_init\<close> among them that stays
  clear of overflow, \<^verbatim>\<open>nodes\<close> does not decrease and neither does the value
  \<^verbatim>\<open>graph_edge_count\<close> returns. The start state is any state, so the two ends are any
  two points of a longer sequence, one call apart or more.
\<close>

theorem counters_monotone:
  "Init \<notin> set cs \<Longrightarrow> run cs s = Inr (rs, s') \<Longrightarrow>
     sint (nodes s) \<le> sint (nodes s')
     \<and> sint (fst (graph_edge_count s)) \<le> sint (fst (graph_edge_count s'))"
proof (induction cs arbitrary: s rs)
  case Nil
  then show ?case by simp
next
  case (Cons c cs)
  from Cons.prems(2) obtain r t rs' where
    step: "exec c s = Inr (r, t)" and rest: "run cs t = Inr (rs', s')"
    by (rule run_Cons_Inr)
  from Cons.prems(1) have "c \<noteq> Init" and "Init \<notin> set cs"
    by auto
  from exec_monotone [OF \<open>c \<noteq> Init\<close> step] Cons.IH [OF \<open>Init \<notin> set cs\<close> rest]
  show ?case
    by (simp add: graph_edge_count_def)
qed

theorem counters_monotone_witness:
  "Init \<notin> set [Add_node 4, Edge_count, Add_node 4]
   \<and> run [Add_node 4, Edge_count, Add_node 4] \<lparr>nodes = 1, edges = 0\<rparr>
       = Inr ([Some 2, Some 1, Some 3], \<lparr>nodes = 3, edges = 2\<rparr>)
   \<and> sint (nodes \<lparr>nodes = 1, edges = 0\<rparr>) \<le> sint (nodes \<lparr>nodes = 3, edges = 2\<rparr>)
   \<and> sint (fst (graph_edge_count \<lparr>nodes = 1, edges = 0\<rparr>))
       \<le> sint (fst (graph_edge_count \<lparr>nodes = 3, edges = 2\<rparr>))"
proof -
  have h: "Init \<notin> set [Add_node 4, Edge_count, Add_node 4]"
    by simp
  have v: "run [Add_node 4, Edge_count, Add_node 4] \<lparr>nodes = 1, edges = 0\<rparr>
       = Inr ([Some 2, Some 1, Some 3], \<lparr>nodes = 3, edges = 2\<rparr>)"
    by code_simp
  from counters_monotone [OF h v] h v show ?thesis
    by (simp only: simp_thms)
qed

text \<open>
  C7. \<^verbatim>\<open>graph_edge_count\<close> is a pure read: in every state it returns \<^verbatim>\<open>edges\<close> and leaves
  the state as it is; it has no failing outcome. Called any number of times in a row it
  returns the same value each time.
\<close>

theorem graph_edge_count_pure:
  "graph_edge_count s = (edges s, s)
   \<and> run (replicate k Edge_count) s = Inr (replicate k (Some (edges s)), s)"
  by (simp add: graph_edge_count_def run_Edge_counts)

text \<open>
  C8. No call fails but by overflow: \<^verbatim>\<open>graph_add_node\<close> has the undefined outcome exactly
  where an increment overflows, for every id, and returns everywhere else;
  \<^verbatim>\<open>graph_init\<close> and \<^verbatim>\<open>graph_edge_count\<close> return in every state. \<open>Signed_Overflow\<close> is the
  only value of the type \<open>error\<close>.
\<close>

theorem fails_only_on_overflow:
  "(graph_add_node i s = Inl e \<longleftrightarrow> increment_overflows s)
   \<and> (\<not> increment_overflows s \<longrightarrow> (\<exists>r s'. graph_add_node i s = Inr (r, s')))
   \<and> (\<exists>s'. exec Init s = Inr (None, s'))
   \<and> (\<exists>r. exec Edge_count s = Inr (Some r, s))
   \<and> (exec c s = Inl e \<longleftrightarrow> (\<exists>j. c = Add_node j) \<and> increment_overflows s)"
proof (intro conjI impI)
  show "graph_add_node i s = Inl e \<longleftrightarrow> increment_overflows s"
    by (rule graph_add_node_Inl_iff)
  show "\<exists>r s'. graph_add_node i s = Inr (r, s')" if "\<not> increment_overflows s"
    using graph_add_node_return [OF that, of i] by blast
  show "\<exists>s'. exec Init s = Inr (None, s')"
    by simp
  show "\<exists>r. exec Edge_count s = Inr (Some r, s)"
    by (simp add: graph_edge_count_def)
  show "exec c s = Inl e \<longleftrightarrow> (\<exists>j. c = Add_node j) \<and> increment_overflows s"
  proof (cases c)
    case Init
    then show ?thesis by simp
  next
    case (Add_node j)
    have "exec (Add_node j) s = Inl e \<longleftrightarrow> graph_add_node j s = Inl e"
      by (auto split: sum.splits)
    with Add_node show ?thesis
      by (simp add: graph_add_node_Inl_iff)
  next
    case Edge_count
    then show ?thesis by (simp add: graph_edge_count_def)
  qed
qed

theorem fails_only_on_overflow_witness:
  "\<not> increment_overflows \<lparr>nodes = - 3, edges = 2147483647\<rparr>
   \<and> (\<exists>r s'. graph_add_node 0 \<lparr>nodes = - 3, edges = 2147483647\<rparr> = Inr (r, s'))
   \<and> increment_overflows \<lparr>nodes = 1, edges = 2147483647\<rparr>
   \<and> graph_add_node 0 \<lparr>nodes = 1, edges = 2147483647\<rparr> = Inl Signed_Overflow"
proof -
  have h: "\<not> increment_overflows \<lparr>nodes = - 3, edges = 2147483647\<rparr>"
    by (simp add: increment_overflows_def INT_MAX_def)
  have o: "increment_overflows \<lparr>nodes = 1, edges = 2147483647\<rparr>"
    by (simp add: increment_overflows_def INT_MAX_def)
  from h o
    fails_only_on_overflow [of 0 "\<lparr>nodes = - 3, edges = 2147483647\<rparr>" Signed_Overflow Init]
    fails_only_on_overflow [of 0 "\<lparr>nodes = 1, edges = 2147483647\<rparr>" Signed_Overflow Init]
  show ?thesis by blast
qed

text \<open>
  C9. The state the C initialisers give, before any call, has both counters 0 and is the
  state \<^verbatim>\<open>graph_init\<close> gives: a sequence of calls has the same outcome from it as after a
  reset, and it satisfies the invariant.
\<close>

theorem static_init_is_reset:
  "nodes static_init = 0 \<and> edges static_init = 0
   \<and> graph_init s = static_init
   \<and> run cs (graph_init s) = run cs static_init
   \<and> graph_inv static_init"
  by (simp add: static_init_def graph_init_zero graph_inv_def)

text \<open>
  C10. \<^verbatim>\<open>main\<close> makes the calls \<^verbatim>\<open>graph_init(); graph_add_node(1); graph_add_node(2)\<close>, after
  which \<^verbatim>\<open>graph_edge_count()\<close> returns 1: from every state of the counters it returns 0 and
  the line it prints ends with \<^verbatim>\<open>edges=1\<close>.
\<close>

theorem main_prints_one_edge:
  "main orchard_version current_platform s =
     Inr ((''Orchard '' @ orchard_version @ '' on '' @ current_platform
             @ '': edges=1'' @ [CHR 0x0A], 0),
          \<lparr>nodes = 2, edges = 1\<rparr>)
   \<and> run [Init, Add_node 1, Add_node 2, Edge_count] s
       = Inr ([None, Some 1, Some 2, Some 1], \<lparr>nodes = 2, edges = 1\<rparr>)"
proof -
  have one: "graph_add_node 1 \<lparr>nodes = 0, edges = 0\<rparr> = Inr (1, \<lparr>nodes = 1, edges = 0\<rparr>)"
    by code_simp
  have two: "graph_add_node 2 \<lparr>nodes = 1, edges = 0\<rparr> = Inr (2, \<lparr>nodes = 2, edges = 1\<rparr>)"
    by code_simp
  show ?thesis
    by (simp add: main_def graph_init_zero one two plugin_answer_def graph_edge_count_def
        dec_int_one)
qed

end
